theory Spec2Isabelle
  imports Complex_Main "HOL-Library.Word"
begin

unbundle bit_operations_syntax

section \<open>Data model (server.go, lines 18-39)\<close>

text \<open>
  A \<^verbatim>\<open>float64\<close> is its IEEE 754 binary64 bit pattern.
\<close>

type_synonym float64 = "64 word"
type_synonym error = string

record Coordinates =
  X :: float64
  Y :: float64

record MapLocation =
  ID :: string
  Location :: string
  XY :: Coordinates

definition zeroMapLocation :: MapLocation where
  "zeroMapLocation = \<lparr>ID = [], Location = [], XY = \<lparr>X = 0, Y = 0\<rparr>\<rparr>"

text \<open>
  A Go slice is a header: nil, or the address of a backing array with a length and the
  capacity left beyond it. The assignment \<^verbatim>\<open>cache.data = data\<close> copies the header,
  so both variables then name one backing array, and a write through one is read through
  the other. The heap gives every address its array, an element for every index.
\<close>

datatype slice = NilSlice | Slice nat nat nat

type_synonym heap = "nat \<Rightarrow> nat \<Rightarrow> MapLocation"

primrec len :: "slice \<Rightarrow> nat" where
  "len NilSlice = 0"
| "len (Slice a n k) = n"

text \<open>The elements read through a slice; \<open>None\<close> for the nil slice.\<close>

primrec contents :: "heap \<Rightarrow> slice \<Rightarrow> MapLocation list option" where
  "contents h NilSlice = None"
| "contents h (Slice a n k) = Some (map (h a) [0..<n])"

text \<open>
  The value a finite binary64 pattern denotes, as a rational: sign bit 63, biased
  exponent in bits 62-52, fraction in bits 51-0. An all-ones exponent is NaN or an
  infinity and denotes no number.
\<close>

definition float64_exponent :: "float64 \<Rightarrow> nat" where
  "float64_exponent f = unat (drop_bit 52 f AND 0x7FF)"

definition float64_fraction :: "float64 \<Rightarrow> nat" where
  "float64_fraction f = unat (f AND 0xFFFFFFFFFFFFF)"

definition isNaN_or_Inf :: "float64 \<Rightarrow> bool" where
  "isNaN_or_Inf f = (float64_exponent f = 2047)"

definition float64_value :: "float64 \<Rightarrow> rat option" where
  "float64_value f =
     (let e = float64_exponent f;
          m = float64_fraction f;
          sign = (if bit f 63 then - 1 else 1 :: rat)
      in if e = 2047 then None
         else if e = 0 then Some (sign * of_nat m / 2 ^ 1074)
         else if 1075 \<le> e then Some (sign * of_nat (2 ^ 52 + m) * 2 ^ (e - 1075))
         else Some (sign * of_nat (2 ^ 52 + m) / 2 ^ (1075 - e)))"

section \<open>JSON encoding of the response (encoding/json on the struct tags, lines 19-29)\<close>

text \<open>
  \<^verbatim>\<open>encoder.Encode(cache.data)\<close> marshals a \<^verbatim>\<open>[]MapLocation\<close>: a nil slice
  as \<^verbatim>\<open>null\<close>, otherwise an array of objects whose keys are the \<^verbatim>\<open>json\<close> tags in
  field order. Three parts of the runtime and the standard library stay parameters: the
  shortest-digits formatting of a finite float (\<^verbatim>\<open>strconv\<close>), the escaping of a
  string that holds a byte outside the encoder's HTML-safe set, and the capacity the
  runtime gives a slice that \<^verbatim>\<open>append\<close> has to grow. A NaN or an infinity makes
  marshalling fail (\<^verbatim>\<open>UnsupportedValueError\<close>), which is \<open>None\<close>.
\<close>

record go_lib =
  formatFloat :: "float64 \<Rightarrow> string"
  escapeString :: "string \<Rightarrow> string"
  growslice :: "nat \<Rightarrow> nat"

definition htmlSafe :: "char \<Rightarrow> bool" where
  "htmlSafe c =
     (let n = (of_char c :: nat)
      in 32 \<le> n \<and> n < 127 \<and> n \<noteq> 34 \<and> n \<noteq> 92 \<and> n \<noteq> 60 \<and> n \<noteq> 62 \<and> n \<noteq> 38)"

definition marshalString :: "go_lib \<Rightarrow> string \<Rightarrow> string" where
  "marshalString J s =
     (if list_all htmlSafe s then ''\"'' @ s @ ''\"'' else escapeString J s)"

definition marshalFloat :: "go_lib \<Rightarrow> float64 \<Rightarrow> string option" where
  "marshalFloat J f = (if isNaN_or_Inf f then None else Some (formatFloat J f))"

definition marshalCoordinates :: "go_lib \<Rightarrow> Coordinates \<Rightarrow> string option" where
  "marshalCoordinates J c =
     (case marshalFloat J (X c) of
        None \<Rightarrow> None
      | Some x \<Rightarrow>
          (case marshalFloat J (Y c) of
             None \<Rightarrow> None
           | Some y \<Rightarrow> Some (''{\"x\":'' @ x @ '',\"y\":'' @ y @ ''}'')))"

definition marshalMapLocation :: "go_lib \<Rightarrow> MapLocation \<Rightarrow> string option" where
  "marshalMapLocation J m =
     (case marshalCoordinates J (XY m) of
        None \<Rightarrow> None
      | Some xy \<Rightarrow>
          Some (''{\"id\":'' @ marshalString J (ID m) @
                '',\"location\":'' @ marshalString J (Location m) @
                '',\"xy\":'' @ xy @ ''}''))"

primrec joinComma :: "string list \<Rightarrow> string" where
  "joinComma [] = []"
| "joinComma (x # xs) = (if xs = [] then x else x @ '','' @ joinComma xs)"

primrec marshalAll :: "go_lib \<Rightarrow> MapLocation list \<Rightarrow> string list option" where
  "marshalAll J [] = Some []"
| "marshalAll J (m # ms) =
     (case marshalMapLocation J m of
        None \<Rightarrow> None
      | Some x \<Rightarrow> (case marshalAll J ms of None \<Rightarrow> None | Some xs \<Rightarrow> Some (x # xs)))"

definition marshal :: "go_lib \<Rightarrow> MapLocation list option \<Rightarrow> string option" where
  "marshal J v =
     (case v of
        None \<Rightarrow> Some ''null''
      | Some ms \<Rightarrow>
          (case marshalAll J ms of
             None \<Rightarrow> None
           | Some xs \<Rightarrow> Some (''['' @ joinComma xs @ '']'')))"

section \<open>The HTTP response (net/http)\<close>

text \<open>
  The \<^verbatim>\<open>http.ResponseWriter\<close> of one request: its header map, the status line once
  written (\<open>None\<close> before), and the body bytes. The first write sends status 200 when
  none was sent; a later \<^verbatim>\<open>WriteHeader\<close> changes nothing. Writes to the connection
  are taken to succeed.
\<close>

record ResponseWriter =
  header :: "(string \<times> string) list"
  status :: "nat option"
  body :: string

definition newResponseWriter :: ResponseWriter where
  "newResponseWriter = \<lparr>header = [], status = None, body = []\<rparr>"

primrec setKey :: "string \<Rightarrow> string \<Rightarrow> (string \<times> string) list \<Rightarrow> (string \<times> string) list" where
  "setKey k v [] = [(k, v)]"
| "setKey k v (p # ps) = (if fst p = k then (k, v) # ps else p # setKey k v ps)"

definition Header_Set :: "string \<Rightarrow> string \<Rightarrow> ResponseWriter \<Rightarrow> ResponseWriter" where
  "Header_Set k v w = (if status w = None then w\<lparr>header := setKey k v (header w)\<rparr> else w)"

definition WriteHeader :: "nat \<Rightarrow> ResponseWriter \<Rightarrow> ResponseWriter" where
  "WriteHeader c w = (if status w = None then w\<lparr>status := Some c\<rparr> else w)"

definition Write :: "string \<Rightarrow> ResponseWriter \<Rightarrow> ResponseWriter" where
  "Write b w = (let w' = WriteHeader 200 w in w'\<lparr>body := body w' @ b\<rparr>)"

definition http_Error :: "string \<Rightarrow> nat \<Rightarrow> ResponseWriter \<Rightarrow> ResponseWriter" where
  "http_Error msg c w =
     Write (msg @ [CHR 0x0A])
       (WriteHeader c
         (Header_Set ''X-Content-Type-Options'' ''nosniff''
           (Header_Set ''Content-Type'' ''text/plain; charset=utf-8'' w)))"

definition Encoder_Encode ::
  "go_lib \<Rightarrow> MapLocation list option \<Rightarrow> ResponseWriter \<Rightarrow> error option \<times> ResponseWriter" where
  "Encoder_Encode J v w =
     (case marshal J v of
        None \<Rightarrow> (Some ''json: unsupported value'', w)
      | Some b \<Rightarrow> (None, Write (b @ [CHR 0x0A]) w))"

section \<open>The storage backend and the program state\<close>

text \<open>
  A \<^verbatim>\<open>context.Context\<close> is the background context, the request's own context, or a
  context with a timeout (in seconds) under a parent.
\<close>

datatype go_context = Background | RequestContext | WithTimeout go_context nat

primrec hasDeadline :: "go_context \<Rightarrow> bool" where
  "hasDeadline Background = False"
| "hasDeadline RequestContext = False"
| "hasDeadline (WithTimeout parent d) = True"

text \<open>
  What the backend does at one fetch is an input of the model. \<^verbatim>\<open>collection.Find\<close>
  fails or gives a cursor; a cursor is the documents it yields, in order, each of which
  decodes to a record or fails to decode.
\<close>

datatype document = Doc MapLocation | BadDoc error

datatype find_result =
  FindErr error
| FindOk "document list"

datatype driver_call = CallFind go_context | CallAll go_context | CallClose go_context

datatype deferred_call = Unlock | Cancel go_context | CursorClose go_context

text \<open>
  The package-level variables \<^verbatim>\<open>data\<close>, \<^verbatim>\<open>cache.data\<close> (two slice headers) and
  \<^verbatim>\<open>cacheMutex\<close> (\<open>True\<close> when held), the heap of backing arrays with the next
  address to allocate, and what the claims observe besides: the driver calls made so
  far and the context each was given, the timeout contexts whose cancel function has
  not been called, the deferred calls pending in the frame of \<^verbatim>\<open>updateCacheAsync\<close>,
  and the lines printed.
\<close>

record state =
  data :: slice
  cache_data :: slice
  heap :: heap
  nextAddr :: nat
  cacheMutex :: bool
  driverCalls :: "driver_call list"
  timeouts :: "go_context list"
  deferred :: "deferred_call list"
  stdout :: "string list"

definition init_state :: state where
  "init_state =
     \<lparr>data = NilSlice, cache_data = NilSlice, heap = (\<lambda>a i. zeroMapLocation), nextAddr = 0,
      cacheMutex = False, driverCalls = [], timeouts = [], deferred = [], stdout = []\<rparr>"

definition cacheMutex_Lock :: "state \<Rightarrow> state option" where
  "cacheMutex_Lock s = (if cacheMutex s then None else Some (s\<lparr>cacheMutex := True\<rparr>))"

definition cacheMutex_Unlock :: "state \<Rightarrow> state" where
  "cacheMutex_Unlock s = s\<lparr>cacheMutex := False\<rparr>"

definition context_WithTimeout :: "go_context \<Rightarrow> nat \<Rightarrow> state \<Rightarrow> go_context \<times> state" where
  "context_WithTimeout parent d s =
     (WithTimeout parent d, s\<lparr>timeouts := WithTimeout parent d # timeouts s\<rparr>)"

definition collection_Find ::
  "go_context \<Rightarrow> find_result \<Rightarrow> state \<Rightarrow> (error + document list) \<times> state" where
  "collection_Find c fr s =
     (case fr of FindErr e \<Rightarrow> Inl e | FindOk cursor \<Rightarrow> Inr cursor,
      s\<lparr>driverCalls := driverCalls s @ [CallFind c]\<rparr>)"

subsection \<open>cursor.All on the address of a slice\<close>

text \<open>
  \<^verbatim>\<open>cursor.All(ctx, &data)\<close> starts from the slice \<^verbatim>\<open>data\<close> holds and decodes
  document number \<open>index\<close> into element \<open>index\<close> of it, in place. When the slice is
  full it first appends a zero element and extends the slice to its capacity. It returns
  at the first document that fails to decode, with the elements written so far left as
  they are and \<^verbatim>\<open>data\<close> not assigned; after the last document it assigns \<^verbatim>\<open>data\<close>
  the slice cut to the number of documents. A document stands for the whole record it
  decodes to.
\<close>

text \<open>\<^verbatim>\<open>append\<close> of one zero element: in place when capacity is left, else into a
  new array that holds a copy of the elements.\<close>

definition reflect_Append :: "go_lib \<Rightarrow> slice \<Rightarrow> state \<Rightarrow> slice \<times> state" where
  "reflect_Append L sv s =
     (case sv of
        NilSlice \<Rightarrow>
          (Slice (nextAddr s) 1 (max 1 (growslice L 0) - 1),
           s\<lparr>heap := (heap s)(nextAddr s := (\<lambda>i. zeroMapLocation)),
             nextAddr := Suc (nextAddr s)\<rparr>)
      | Slice a n k \<Rightarrow>
          if 0 < k then
            (Slice a (Suc n) (k - 1),
             s\<lparr>heap := (heap s)(a := (heap s a)(n := zeroMapLocation))\<rparr>)
          else
            (Slice (nextAddr s) (Suc n) (max (Suc n) (growslice L n) - Suc n),
             s\<lparr>heap := (heap s)
                       (nextAddr s := (\<lambda>i. if i < n then heap s a i else zeroMapLocation)),
               nextAddr := Suc (nextAddr s)\<rparr>))"

text \<open>\<^verbatim>\<open>sliceVal.Slice(0, sliceVal.Cap())\<close> and \<^verbatim>\<open>sliceVal.Slice(0, index)\<close>.\<close>

primrec sliceToCap :: "slice \<Rightarrow> slice" where
  "sliceToCap NilSlice = NilSlice"
| "sliceToCap (Slice a n k) = Slice a (n + k) 0"

primrec sliceTo :: "slice \<Rightarrow> nat \<Rightarrow> slice" where
  "sliceTo NilSlice index = NilSlice"
| "sliceTo (Slice a n k) index = Slice a index (n + k - index)"

text \<open>The decoded record written into element \<open>index\<close> of the slice.\<close>

primrec decodeInto :: "slice \<Rightarrow> nat \<Rightarrow> MapLocation \<Rightarrow> state \<Rightarrow> state" where
  "decodeInto NilSlice index r s = s"
| "decodeInto (Slice a n k) index r s = s\<lparr>heap := (heap s)(a := (heap s a)(index := r))\<rparr>"

text \<open>The top of the loop body: \<^verbatim>\<open>if sliceVal.Len() == index\<close>, append a zero
  element and extend the slice to its capacity.\<close>

definition makeRoom :: "go_lib \<Rightarrow> slice \<Rightarrow> nat \<Rightarrow> state \<Rightarrow> slice \<times> state" where
  "makeRoom L sv index s =
     (if len sv = index then
        (let (sv', s') = reflect_Append L sv s in (sliceToCap sv', s'))
      else (sv, s))"

text \<open>The loop over the documents. An index beyond the length is the panic of
  \<^verbatim>\<open>reflect\<close>; the loop never reaches it from index 0.\<close>

fun addFromBatch ::
  "go_lib \<Rightarrow> document list \<Rightarrow> slice \<Rightarrow> nat \<Rightarrow> state \<Rightarrow> error option \<times> slice \<times> nat \<times> state" where
  "addFromBatch L [] sv index s = (None, sv, index, s)"
| "addFromBatch L (d # ds) sv index s =
     (let (sv1, s1) = makeRoom L sv index s
      in if len sv1 \<le> index then (Some ''reflect: slice index out of range'', sv1, index, s1)
         else
           (case d of
              BadDoc err \<Rightarrow> (Some err, sv1, index, s1)
            | Doc r \<Rightarrow> addFromBatch L ds sv1 (Suc index) (decodeInto sv1 index r s1)))"

definition cursor_All ::
  "go_lib \<Rightarrow> go_context \<Rightarrow> document list \<Rightarrow> state \<Rightarrow> error option \<times> state" where
  "cursor_All L c cursor s =
     (case addFromBatch L cursor (data s) 0 s of
        (Some err, sv, index, s1) \<Rightarrow>
          (Some err, s1\<lparr>driverCalls := driverCalls s1 @ [CallAll c]\<rparr>)
      | (None, sv, index, s1) \<Rightarrow>
          (None, s1\<lparr>data := sliceTo sv index, driverCalls := driverCalls s1 @ [CallAll c]\<rparr>))"

definition Println :: "string \<Rightarrow> state \<Rightarrow> state" where
  "Println line s = s\<lparr>stdout := stdout s @ [line]\<rparr>"

primrec runDeferredCall :: "deferred_call \<Rightarrow> state \<Rightarrow> state" where
  "runDeferredCall Unlock s = cacheMutex_Unlock s"
| "runDeferredCall (Cancel c) s = s\<lparr>timeouts := remove1 c (timeouts s)\<rparr>"
| "runDeferredCall (CursorClose c) s = s\<lparr>driverCalls := driverCalls s @ [CallClose c]\<rparr>"

text \<open>Deferred calls run last-in first-out when the function returns; the list is kept
  newest first.\<close>

definition runDeferred :: "deferred_call list \<Rightarrow> state \<Rightarrow> state" where
  "runDeferred ds s = fold runDeferredCall ds s"

section \<open>getMapDataHandler (lines 75-108)\<close>

text \<open>Lines 103-107: the snapshot is encoded into the response, or the encoder's error
  is reported.\<close>

definition encodeResponse ::
  "go_lib \<Rightarrow> MapLocation list option \<Rightarrow> ResponseWriter \<Rightarrow> ResponseWriter" where
  "encodeResponse L v w =
     (case Encoder_Encode L v w of
        (Some err, w') \<Rightarrow> http_Error ''Failed to encode map data as JSON'' 500 w'
      | (None, w') \<Rightarrow> w')"

text \<open>
  One request. \<open>None\<close> is a handler that blocks in \<^verbatim>\<open>cacheMutex.Lock()\<close> because
  the mutex is held. The encoder reads the elements of \<^verbatim>\<open>cache.data\<close> from the heap.
\<close>

definition getMapDataHandler ::
  "go_lib \<Rightarrow> find_result \<Rightarrow> state \<Rightarrow> (ResponseWriter \<times> state) option" where
  "getMapDataHandler L fr s0 =
     (case cacheMutex_Lock s0 of
        None \<Rightarrow> None
      | Some s1 \<Rightarrow>
          Some
            (let ds1 = [Unlock];
                 w1 = Header_Set ''Content-Type'' ''application/json'' newResponseWriter
             in if len (cache_data s1) = 0 then
                  (let (ctx, s2) = context_WithTimeout RequestContext 10 s1;
                       ds2 = Cancel ctx # ds1
                   in case collection_Find ctx fr s2 of
                        (Inl err, s3) \<Rightarrow>
                          (http_Error ''Failed to fetch map data from MongoDB'' 500 w1,
                           runDeferred ds2 s3)
                      | (Inr cursor, s3) \<Rightarrow>
                          (let ds3 = CursorClose ctx # ds2
                           in case cursor_All L Background cursor s3 of
                                (Some err, s4) \<Rightarrow>
                                  (http_Error ''Failed to decode map data'' 500 w1,
                                   runDeferred ds3 s4)
                              | (None, s4) \<Rightarrow>
                                  (let s5 = Println ''Cache updated'' (s4\<lparr>cache_data := data s4\<rparr>)
                                   in (encodeResponse L (contents (heap s5) (cache_data s5)) w1,
                                       runDeferred ds3 s5))))
                else (encodeResponse L (contents (heap s1) (cache_data s1)) w1,
                      runDeferred ds1 s1)))"

section \<open>updateCacheAsync (lines 110-142)\<close>

text \<open>
  The body of the loop at one tick of the ticker. The deferred calls go to the frame of
  \<^verbatim>\<open>updateCacheAsync\<close>, which never returns; each path unlocks the mutex itself.
  \<open>None\<close> is a tick that blocks in \<^verbatim>\<open>cacheMutex.Lock()\<close>.
\<close>

definition updateCacheAsync_tick :: "go_lib \<Rightarrow> find_result \<Rightarrow> state \<Rightarrow> state option" where
  "updateCacheAsync_tick L fr s0 =
     (case cacheMutex_Lock s0 of
        None \<Rightarrow> None
      | Some s1 \<Rightarrow>
          Some
            (let (ctx, s2) = context_WithTimeout Background 10 s1;
                 s3 = s2\<lparr>deferred := Cancel ctx # deferred s2\<rparr>
             in case collection_Find ctx fr s3 of
                  (Inl err, s4) \<Rightarrow>
                    cacheMutex_Unlock
                      (Println (''Error fetching data from MongoDB: '' @ err) s4)
                | (Inr cursor, s4) \<Rightarrow>
                    (let s5 = s4\<lparr>deferred := CursorClose ctx # deferred s4\<rparr>
                     in case cursor_All L Background cursor s5 of
                          (Some err, s6) \<Rightarrow>
                            cacheMutex_Unlock
                              (Println (''Error decoding map data: '' @ err) s6)
                        | (None, s6) \<Rightarrow>
                            cacheMutex_Unlock
                              (Println ''Cache updated'' (s6\<lparr>cache_data := data s6\<rparr>)))))"

text \<open>
  The loop over the first ticks of the ticker, one backend behaviour per tick. The loop
  itself has no exit; this is its run up to any finite number of ticks.
\<close>

primrec updateCacheAsync :: "go_lib \<Rightarrow> find_result list \<Rightarrow> state \<Rightarrow> state option" where
  "updateCacheAsync L [] s = Some s"
| "updateCacheAsync L (fr # frs) s =
     (case updateCacheAsync_tick L fr s of
        None \<Rightarrow> None
      | Some s' \<Rightarrow> updateCacheAsync L frs s')"

section \<open>Serialised runs of requests and ticks\<close>

text \<open>
  Both critical sections hold the one mutex from start to end, so a run of the server
  is a sequence of whole requests and whole ticks, each with the behaviour the backend
  shows it. The responses are collected in order.
\<close>

datatype event = Request find_result | Tick find_result

primrec run :: "go_lib \<Rightarrow> event list \<Rightarrow> state \<Rightarrow> (ResponseWriter list \<times> state) option" where
  "run L [] s = Some ([], s)"
| "run L (e # es) s =
     (case e of
        Request fr \<Rightarrow>
          (case getMapDataHandler L fr s of
             None \<Rightarrow> None
           | Some (w, s') \<Rightarrow>
               (case run L es s' of None \<Rightarrow> None | Some (ws, s'') \<Rightarrow> Some (w # ws, s'')))
      | Tick fr \<Rightarrow>
          (case updateCacheAsync_tick L fr s of
             None \<Rightarrow> None
           | Some s' \<Rightarrow> run L es s'))"

section \<open>initMongoDB and main (lines 41-73, 144-166)\<close>

text \<open>
  What the environment does at startup: loading \<^verbatim>\<open>.env\<close>, the value of
  \<^verbatim>\<open>MONGO_URI\<close>, \<^verbatim>\<open>mongo.Connect\<close>, \<^verbatim>\<open>client.Ping\<close>, and
  \<^verbatim>\<open>http.ListenAndServe\<close>, which returns only with an error (\<open>None\<close>: it serves and
  never returns).
\<close>

record startup_env =
  godotenv_Load :: "error option"
  MONGO_URI :: string
  mongo_Connect :: "error option"
  client_Ping :: "error option"
  http_ListenAndServe :: "error option"

definition initMongoDB :: "startup_env \<Rightarrow> error option \<times> string list" where
  "initMongoDB env =
     (case godotenv_Load env of
        Some err \<Rightarrow> (Some err, [])
      | None \<Rightarrow>
          if MONGO_URI env = [] then
            (Some ''MONGO_URI environment variable is not set'', [])
          else
            (case mongo_Connect env of
               Some err \<Rightarrow> (Some err, [])
             | None \<Rightarrow>
                 (case client_Ping env of
                    Some err \<Rightarrow> (Some err, [])
                  | None \<Rightarrow> (None, [''Connected to MongoDB!'']))))"

text \<open>
  The process as \<^verbatim>\<open>main\<close> leaves it: the interval of the refresher goroutine when it
  was started, the route registered, the port served when \<^verbatim>\<open>ListenAndServe\<close> is
  serving, and the exit status when \<^verbatim>\<open>main\<close> returned (a Go program whose
  \<^verbatim>\<open>main\<close> returns exits with status 0).
\<close>

record process =
  refresher :: "nat option"
  route :: "string option"
  serving :: "nat option"
  exit_status :: "nat option"
  printed :: "string list"

definition main :: "startup_env \<Rightarrow> process" where
  "main env =
     (case initMongoDB env of
        (Some err, out) \<Rightarrow>
          \<lparr>refresher = None, route = None, serving = None, exit_status = Some 0,
           printed = out @ [''Error initializing MongoDB: '' @ err]\<rparr>
      | (None, out) \<Rightarrow>
          (let updateInterval = 20; port = 8080
           in case http_ListenAndServe env of
                None \<Rightarrow>
                  \<lparr>refresher = Some updateInterval, route = Some ''/api/map'',
                   serving = Some port, exit_status = None, printed = out\<rparr>
              | Some err \<Rightarrow>
                  \<lparr>refresher = Some updateInterval, route = Some ''/api/map'',
                   serving = None, exit_status = Some 0, printed = out\<rparr>))"

section \<open>Vocabulary of the properties\<close>

text \<open>The response writer after line 79, before anything is written.\<close>

definition jsonWriter :: ResponseWriter where
  "jsonWriter = Header_Set ''Content-Type'' ''application/json'' newResponseWriter"

text \<open>The snapshot a reader is served: the elements of \<^verbatim>\<open>cache.data\<close>.\<close>

definition cached :: "state \<Rightarrow> MapLocation list option" where
  "cached s = contents (heap s) (cache_data s)"

text \<open>
  The snapshot is EMPTY when \<^verbatim>\<open>len(cache.data) == 0\<close>, the test of line 81, and
  POPULATED otherwise. A fetch succeeds with a result set, the records of its documents,
  when \<^verbatim>\<open>collection.Find\<close> succeeds and every document decodes; it fails otherwise.
\<close>

datatype snapshot_state = EMPTY | POPULATED

definition snapshot :: "state \<Rightarrow> snapshot_state" where
  "snapshot s = (if len (cache_data s) = 0 then EMPTY else POPULATED)"

primrec decoded :: "document list \<Rightarrow> MapLocation list option" where
  "decoded [] = Some []"
| "decoded (d # ds) =
     (case d of
        BadDoc err \<Rightarrow> None
      | Doc r \<Rightarrow> (case decoded ds of None \<Rightarrow> None | Some rs \<Rightarrow> Some (r # rs)))"

primrec fetched :: "find_result \<Rightarrow> MapLocation list option" where
  "fetched (FindErr e) = None"
| "fetched (FindOk cursor) = decoded cursor"

text \<open>
  A fetch that succeeds with no record; the \<^verbatim>\<open>collection.Find\<close> calls among the
  driver calls made so far.
\<close>

definition emptyFetch :: "find_result \<Rightarrow> bool" where
  "emptyFetch fr = (fetched fr = Some [])"

primrec isFind :: "driver_call \<Rightarrow> bool" where
  "isFind (CallFind c) = True"
| "isFind (CallAll c) = False"
| "isFind (CallClose c) = False"

definition findCalls :: "state \<Rightarrow> nat" where
  "findCalls s = length (filter isFind (driverCalls s))"

text \<open>Sample values: the record of the round-trip example and two more records; a
  stand-in for the library functions; and a state whose cache holds the first record.\<close>

definition town :: MapLocation where
  "town = \<lparr>ID = ''1'', Location = ''Town'',
            XY = \<lparr>X = 0x3FF8000000000000, Y = 0x4004000000000000\<rparr>\<rparr>"

definition village :: MapLocation where
  "village = \<lparr>ID = ''2'', Location = ''Village'',
               XY = \<lparr>X = 0x4004000000000000, Y = 0x3FF8000000000000\<rparr>\<rparr>"

definition harbour :: MapLocation where
  "harbour = \<lparr>ID = ''3'', Location = ''Harbour'',
               XY = \<lparr>X = 0x3FF8000000000000, Y = 0x3FF8000000000000\<rparr>\<rparr>"

definition sample_lib :: go_lib where
  "sample_lib =
     \<lparr>formatFloat = (\<lambda>f. if f = 0x3FF8000000000000 then ''1.5''
                          else if f = 0x4004000000000000 then ''2.5'' else ''0''),
      escapeString = (\<lambda>s. ''\"?\"''),
      growslice = (\<lambda>n. 2 * n)\<rparr>"

definition populated_state :: state where
  "populated_state =
     init_state\<lparr>data := Slice 0 1 0, cache_data := Slice 0 1 0,
                heap := (\<lambda>a i. if a = 0 \<and> i = 0 then town else zeroMapLocation),
                nextAddr := 1\<rparr>"

text \<open>A record whose x coordinate is a NaN, a state whose cache holds it, and a startup
  at which the configuration is present and the server does not answer the ping.\<close>

definition nan_town :: MapLocation where
  "nan_town = \<lparr>ID = ''2'', Location = ''Nowhere'',
                XY = \<lparr>X = 0x7FF8000000000000, Y = 0x4004000000000000\<rparr>\<rparr>"

definition nan_state :: state where
  "nan_state =
     init_state\<lparr>data := Slice 0 1 0, cache_data := Slice 0 1 0,
                heap := (\<lambda>a i. nan_town), nextAddr := 1\<rparr>"

definition unreachable_env :: startup_env where
  "unreachable_env =
     \<lparr>godotenv_Load = None, MONGO_URI = ''mongodb://db.example:27017'',
      mongo_Connect = None, client_Ping = Some ''server selection timeout'',
      http_ListenAndServe = None\<rparr>"

text \<open>The process that printed the startup error and returned: nothing started, exit
  status 0.\<close>

definition stopped :: "error \<Rightarrow> process" where
  "stopped err =
     \<lparr>refresher = None, route = None, serving = None, exit_status = Some 0,
      printed = [''Error initializing MongoDB: '' @ err]\<rparr>"

text \<open>
  For the proofs about \<^verbatim>\<open>cursor.All\<close>: the first elements of the backing array of a
  slice, and two states that differ at most in the heap.
\<close>

definition elemsTo :: "heap \<Rightarrow> slice \<Rightarrow> nat \<Rightarrow> MapLocation list" where
  "elemsTo h sv i = (case sv of NilSlice \<Rightarrow> [] | Slice a n k \<Rightarrow> map (h a) [0..<i])"

definition sameGlobals :: "state \<Rightarrow> state \<Rightarrow> bool" where
  "sameGlobals s' s =
     (data s' = data s \<and> cache_data s' = cache_data s \<and> cacheMutex s' = cacheMutex s \<and>
      driverCalls s' = driverCalls s \<and> timeouts s' = timeouts s \<and>
      deferred s' = deferred s \<and> stdout s' = stdout s)"

section \<open>cursor.All and the two critical sections\<close>

lemma sameGlobals_refl: "sameGlobals s s"
  by (simp add: sameGlobals_def)

lemma sameGlobals_trans: "sameGlobals s'' s' \<Longrightarrow> sameGlobals s' s \<Longrightarrow> sameGlobals s'' s"
  by (simp add: sameGlobals_def)

lemma reflect_Append_props:
  assumes "reflect_Append L sv s = (sv', s')"
  shows "len sv' = Suc (len sv)" and "sv' \<noteq> NilSlice" and "sameGlobals s' s"
    and "elemsTo (heap s') sv' (len sv) = elemsTo (heap s) sv (len sv)"
  using assms
  by (auto simp: reflect_Append_def sameGlobals_def elemsTo_def split: slice.splits if_splits)

lemma sliceToCap_props:
  "len sv \<le> len (sliceToCap sv)" "(sliceToCap sv = NilSlice) = (sv = NilSlice)"
  "elemsTo h (sliceToCap sv) i = elemsTo h sv i"
  by (cases sv; simp add: elemsTo_def)+

lemma makeRoom_props:
  assumes "makeRoom L sv i s = (sv1, s1)" and "i \<le> len sv"
  shows "i < len sv1 \<and> sv1 \<noteq> NilSlice \<and> sameGlobals s1 s \<and>
         elemsTo (heap s1) sv1 i = elemsTo (heap s) sv i"
proof (cases "len sv = i")
  case False
  with assms have "sv1 = sv" "s1 = s" "i < len sv"
    by (simp_all add: makeRoom_def)
  then show ?thesis
    by (cases sv) (simp_all add: sameGlobals_refl)
next
  case True
  obtain sv' s' where a: "reflect_Append L sv s = (sv', s')"
    by (cases "reflect_Append L sv s")
  with assms True have e: "sv1 = sliceToCap sv'" "s1 = s'"
    by (simp_all add: makeRoom_def)
  from reflect_Append_props [OF a] sliceToCap_props(1,2) [of sv'] True e
  show ?thesis
    by (simp add: sliceToCap_props(3))
qed

lemma decodeInto_props:
  assumes "sv \<noteq> NilSlice"
  shows "sameGlobals (decodeInto sv i r s) s"
    and "elemsTo (heap (decodeInto sv i r s)) sv (Suc i) = elemsTo (heap s) sv i @ [r]"
  using assms by (cases sv; simp add: sameGlobals_def elemsTo_def)+

lemma makeRoom_frame: "makeRoom L sv i s = (sv1, s1) \<Longrightarrow> sameGlobals s1 s"
  by (auto simp: makeRoom_def reflect_Append_def sameGlobals_def split: slice.splits if_splits)

lemma decodeInto_frame: "sameGlobals (decodeInto sv i r s) s"
  by (cases sv) (simp_all add: sameGlobals_def)

lemma addFromBatch_frame:
  "addFromBatch L ds sv i s = (res, sv', i', s') \<Longrightarrow> sameGlobals s' s"
proof (induction ds arbitrary: sv i s)
  case Nil
  then show ?case by (simp add: sameGlobals_refl)
next
  case (Cons d ds)
  obtain sv1 s1 where m: "makeRoom L sv i s = (sv1, s1)"
    by (cases "makeRoom L sv i s")
  note f1 = makeRoom_frame [OF m]
  show ?case
  proof (cases "len sv1 \<le> i")
    case True
    with Cons.prems m f1 show ?thesis by simp
  next
    case False
    show ?thesis
    proof (cases d)
      case (BadDoc err)
      with Cons.prems m False f1 show ?thesis by simp
    next
      case (Doc r)
      with Cons.prems m False
      have "addFromBatch L ds sv1 (Suc i) (decodeInto sv1 i r s1) = (res, sv', i', s')"
        by simp
      from Cons.IH [OF this] decodeInto_frame [of sv1 i r s1] f1 show ?thesis
        by (blast intro: sameGlobals_trans)
    qed
  qed
qed

lemma addFromBatch_ok:
  "decoded ds = Some rs \<Longrightarrow> i \<le> len sv \<Longrightarrow>
   \<exists>sv' s'. addFromBatch L ds sv i s = (None, sv', i + length rs, s') \<and>
     i + length rs \<le> len sv' \<and>
     elemsTo (heap s') sv' (i + length rs) = elemsTo (heap s) sv i @ rs \<and>
     (rs = [] \<longrightarrow> sv' = sv) \<and> (rs \<noteq> [] \<longrightarrow> sv' \<noteq> NilSlice)"
proof (induction ds arbitrary: rs sv i s)
  case Nil
  then show ?case by simp
next
  case (Cons d ds)
  from Cons.prems(1) obtain r rs' where d: "d = Doc r" and rs': "decoded ds = Some rs'"
    and rs: "rs = r # rs'"
    by (cases d; cases "decoded ds"; simp)
  obtain sv1 s1 where m: "makeRoom L sv i s = (sv1, s1)"
    by (cases "makeRoom L sv i s")
  from makeRoom_props [OF m Cons.prems(2)] have p: "i < len sv1" "sv1 \<noteq> NilSlice"
    "elemsTo (heap s1) sv1 i = elemsTo (heap s) sv i"
    by simp_all
  let ?s2 = "decodeInto sv1 i r s1"
  from p(1) have "Suc i \<le> len sv1" by simp
  from Cons.IH [OF rs' this, of ?s2] obtain sv' s' where
    r: "addFromBatch L ds sv1 (Suc i) ?s2 = (None, sv', Suc i + length rs', s')"
    "Suc i + length rs' \<le> len sv'"
    "elemsTo (heap s') sv' (Suc i + length rs') = elemsTo (heap ?s2) sv1 (Suc i) @ rs'"
    "rs' = [] \<longrightarrow> sv' = sv1" "rs' \<noteq> [] \<longrightarrow> sv' \<noteq> NilSlice"
    by blast
  from r(4,5) p(2) have nn: "sv' \<noteq> NilSlice" by (cases "rs' = []") simp_all
  from m p(1) d r(1) have "addFromBatch L (d # ds) sv i s = (None, sv', i + length rs, s')"
    by (simp add: rs)
  moreover from r(2) have "i + length rs \<le> len sv'" by (simp add: rs)
  moreover from r(3) decodeInto_props(2) [OF p(2), of i r s1] p(3)
  have "elemsTo (heap s') sv' (i + length rs) = elemsTo (heap s) sv i @ rs"
    by (simp add: rs)
  ultimately show ?case using nn rs by simp
qed

lemma addFromBatch_err:
  "decoded ds = None \<Longrightarrow> i \<le> len sv \<Longrightarrow>
   \<exists>e sv' i' s'. addFromBatch L ds sv i s = (Some e, sv', i', s')"
proof (induction ds arbitrary: sv i s)
  case Nil
  then show ?case by simp
next
  case (Cons d ds)
  obtain sv1 s1 where m: "makeRoom L sv i s = (sv1, s1)"
    by (cases "makeRoom L sv i s")
  from makeRoom_props [OF m Cons.prems(2)] have p: "i < len sv1" by simp
  show ?case
  proof (cases d)
    case (BadDoc err)
    with m p show ?thesis by simp
  next
    case (Doc r)
    with Cons.prems(1) have "decoded ds = None"
      by (cases "decoded ds") simp_all
    moreover from p have "Suc i \<le> len sv1" by simp
    ultimately obtain e sv' i' s' where
      "addFromBatch L ds sv1 (Suc i) (decodeInto sv1 i r s1) = (Some e, sv', i', s')"
      using Cons.IH by blast
    with m p Doc show ?thesis by simp
  qed
qed

lemma cursor_All_ok:
  assumes "decoded ds = Some rs"
  shows "\<exists>s'. cursor_All L c ds s = (None, s') \<and>
           contents (heap s') (data s') = (if data s = NilSlice \<and> rs = [] then None else Some rs) \<and>
           len (data s') = length rs \<and> cache_data s' = cache_data s \<and>
           cacheMutex s' = cacheMutex s \<and> driverCalls s' = driverCalls s @ [CallAll c] \<and>
           timeouts s' = timeouts s \<and> deferred s' = deferred s \<and> stdout s' = stdout s"
proof -
  from addFromBatch_ok [OF assms, of 0 "data s" L s] obtain sv' s1 where
    r: "addFromBatch L ds (data s) 0 s = (None, sv', length rs, s1)"
    "length rs \<le> len sv'"
    "elemsTo (heap s1) sv' (length rs) = elemsTo (heap s) (data s) 0 @ rs"
    "rs = [] \<longrightarrow> sv' = data s" "rs \<noteq> [] \<longrightarrow> sv' \<noteq> NilSlice"
    by auto
  from addFromBatch_frame [OF r(1)] have f: "sameGlobals s1 s" .
  have e0: "elemsTo (heap s) (data s) 0 = []"
    by (cases "data s") (simp_all add: elemsTo_def)
  have "contents (heap s1) (sliceTo sv' (length rs)) =
      (if data s = NilSlice \<and> rs = [] then None else Some rs)"
  proof (cases sv')
    case NilSlice
    with r(4,5) show ?thesis by (cases "rs = []") simp_all
  next
    case (Slice a n k)
    with r(3) e0 have "map (heap s1 a) [0..<length rs] = rs"
      by (simp add: elemsTo_def)
    with Slice r(4) show ?thesis by auto
  qed
  moreover have "len (sliceTo sv' (length rs)) = length rs"
  proof (cases sv')
    case NilSlice
    with r(5) show ?thesis by (cases "rs = []") simp_all
  next
    case (Slice a n k)
    then show ?thesis by simp
  qed
  ultimately show ?thesis
    using r(1) f by (simp add: cursor_All_def sameGlobals_def)
qed

lemma cursor_All_err:
  assumes "decoded ds = None"
  shows "\<exists>e s'. cursor_All L c ds s = (Some e, s') \<and> data s' = data s \<and>
           cache_data s' = cache_data s \<and> cacheMutex s' = cacheMutex s \<and>
           driverCalls s' = driverCalls s @ [CallAll c] \<and> timeouts s' = timeouts s \<and>
           deferred s' = deferred s \<and> stdout s' = stdout s"
proof -
  from addFromBatch_err [OF assms, of 0 "data s" L s] obtain e sv' i' s1 where
    r: "addFromBatch L ds (data s) 0 s = (Some e, sv', i', s1)"
    by auto
  from addFromBatch_frame [OF r] have "sameGlobals s1 s" .
  with r show ?thesis by (simp add: cursor_All_def sameGlobals_def)
qed

lemmas driver_defs = cacheMutex_Lock_def cacheMutex_Unlock_def context_WithTimeout_def
  collection_Find_def Println_def runDeferred_def

lemma unlock_relock: "\<not> cacheMutex s \<Longrightarrow> s\<lparr>cacheMutex := False\<rparr> = s"
  by (cases s) simp

lemma contents_empty: "len sl = 0 \<Longrightarrow> contents h' sl = contents h sl"
  by (cases sl) simp_all

lemma handler_blocked: "cacheMutex s \<Longrightarrow> getMapDataHandler L fr s = None"
  by (simp add: getMapDataHandler_def cacheMutex_Lock_def)

lemma handler_populated:
  "\<not> cacheMutex s \<Longrightarrow> len (cache_data s) \<noteq> 0 \<Longrightarrow>
   getMapDataHandler L fr s = Some (encodeResponse L (cached s) jsonWriter, s)"
  by (simp add: getMapDataHandler_def driver_defs jsonWriter_def cached_def Let_def unlock_relock)

lemma handler_FindErr:
  "\<not> cacheMutex s \<Longrightarrow> len (cache_data s) = 0 \<Longrightarrow>
   getMapDataHandler L (FindErr e) s =
     Some (http_Error ''Failed to fetch map data from MongoDB'' 500 jsonWriter,
           s\<lparr>driverCalls := driverCalls s @ [CallFind (WithTimeout RequestContext 10)]\<rparr>)"
  by (cases s) (simp add: getMapDataHandler_def driver_defs jsonWriter_def Let_def)

lemma handler_cold:
  "\<not> cacheMutex s \<Longrightarrow> len (cache_data s) = 0 \<Longrightarrow>
   getMapDataHandler L (FindOk ds) s =
     Some (case cursor_All L Background ds
                 (s\<lparr>cacheMutex := True,
                    timeouts := WithTimeout RequestContext 10 # timeouts s,
                    driverCalls := driverCalls s @ [CallFind (WithTimeout RequestContext 10)]\<rparr>) of
             (Some err, s4) \<Rightarrow>
               (http_Error ''Failed to decode map data'' 500 jsonWriter,
                runDeferred [CursorClose (WithTimeout RequestContext 10),
                             Cancel (WithTimeout RequestContext 10), Unlock] s4)
           | (None, s4) \<Rightarrow>
               (encodeResponse L (contents (heap s4) (data s4)) jsonWriter,
                runDeferred [CursorClose (WithTimeout RequestContext 10),
                             Cancel (WithTimeout RequestContext 10), Unlock]
                  (Println ''Cache updated'' (s4\<lparr>cache_data := data s4\<rparr>))))"
  by (simp add: getMapDataHandler_def cacheMutex_Lock_def context_WithTimeout_def
      collection_Find_def Println_def jsonWriter_def Let_def split: prod.splits option.splits)

lemma handler_cold_ok:
  assumes "\<not> cacheMutex s" and "len (cache_data s) = 0" and "decoded ds = Some rs"
  shows "\<exists>s'. getMapDataHandler L (FindOk ds) s =
                 Some (encodeResponse L (cached s') jsonWriter, s') \<and>
           cached s' = (if data s = NilSlice \<and> rs = [] then None else Some rs) \<and>
           len (cache_data s') = length rs \<and> \<not> cacheMutex s' \<and>
           timeouts s' = timeouts s \<and> deferred s' = deferred s \<and>
           driverCalls s' = driverCalls s @
             [CallFind (WithTimeout RequestContext 10), CallAll Background,
              CallClose (WithTimeout RequestContext 10)] \<and>
           stdout s' = stdout s @ [''Cache updated'']"
proof -
  let ?s3 = "s\<lparr>cacheMutex := True,
    timeouts := WithTimeout RequestContext 10 # timeouts s,
    driverCalls := driverCalls s @ [CallFind (WithTimeout RequestContext 10)]\<rparr>"
  from cursor_All_ok [OF assms(3), of L Background ?s3] obtain s4 where
    a: "cursor_All L Background ds ?s3 = (None, s4)"
    "contents (heap s4) (data s4) = (if data s = NilSlice \<and> rs = [] then None else Some rs)"
    "len (data s4) = length rs" "cache_data s4 = cache_data s"
    "cacheMutex s4 = True"
    "driverCalls s4 = driverCalls s @ [CallFind (WithTimeout RequestContext 10), CallAll Background]"
    "timeouts s4 = WithTimeout RequestContext 10 # timeouts s" "deferred s4 = deferred s"
    "stdout s4 = stdout s"
    by auto
  show ?thesis
    using a by (simp add: handler_cold [OF assms(1,2)] cached_def Println_def runDeferred_def
        cacheMutex_Unlock_def)
qed

lemma handler_cold_err:
  assumes "\<not> cacheMutex s" and "len (cache_data s) = 0" and "decoded ds = None"
  shows "\<exists>s'. getMapDataHandler L (FindOk ds) s =
                 Some (http_Error ''Failed to decode map data'' 500 jsonWriter, s') \<and>
           cache_data s' = cache_data s \<and> data s' = data s \<and> cached s' = cached s \<and>
           \<not> cacheMutex s' \<and> timeouts s' = timeouts s \<and> deferred s' = deferred s \<and>
           driverCalls s' = driverCalls s @
             [CallFind (WithTimeout RequestContext 10), CallAll Background,
              CallClose (WithTimeout RequestContext 10)] \<and>
           stdout s' = stdout s"
proof -
  let ?s3 = "s\<lparr>cacheMutex := True,
    timeouts := WithTimeout RequestContext 10 # timeouts s,
    driverCalls := driverCalls s @ [CallFind (WithTimeout RequestContext 10)]\<rparr>"
  from cursor_All_err [OF assms(3), of L Background ?s3] obtain e s4 where
    a: "cursor_All L Background ds ?s3 = (Some e, s4)"
    "data s4 = data s" "cache_data s4 = cache_data s" "cacheMutex s4 = True"
    "driverCalls s4 = driverCalls s @ [CallFind (WithTimeout RequestContext 10), CallAll Background]"
    "timeouts s4 = WithTimeout RequestContext 10 # timeouts s" "deferred s4 = deferred s"
    "stdout s4 = stdout s"
    by auto
  let ?s' = "runDeferred [CursorClose (WithTimeout RequestContext 10),
    Cancel (WithTimeout RequestContext 10), Unlock] s4"
  have c: "cache_data ?s' = cache_data s"
    using a by (simp add: runDeferred_def cacheMutex_Unlock_def)
  have "cached ?s' = cached s"
    unfolding cached_def c by (rule contents_empty [OF assms(2)])
  then show ?thesis
    using a by (simp add: handler_cold [OF assms(1,2)] runDeferred_def cacheMutex_Unlock_def)
qed

lemma tick_blocked: "cacheMutex s \<Longrightarrow> updateCacheAsync_tick L fr s = None"
  by (simp add: updateCacheAsync_tick_def cacheMutex_Lock_def)

lemma tick_FindErr:
  "\<not> cacheMutex s \<Longrightarrow>
   updateCacheAsync_tick L (FindErr e) s =
     Some (s\<lparr>driverCalls := driverCalls s @ [CallFind (WithTimeout Background 10)],
             timeouts := WithTimeout Background 10 # timeouts s,
             deferred := Cancel (WithTimeout Background 10) # deferred s,
             stdout := stdout s @ [''Error fetching data from MongoDB: '' @ e]\<rparr>)"
  by (cases s) (simp add: updateCacheAsync_tick_def driver_defs Let_def)

lemma tick_cursor:
  "\<not> cacheMutex s \<Longrightarrow>
   updateCacheAsync_tick L (FindOk ds) s =
     Some (case cursor_All L Background ds
                 (s\<lparr>cacheMutex := True,
                    timeouts := WithTimeout Background 10 # timeouts s,
                    deferred := CursorClose (WithTimeout Background 10) #
                                Cancel (WithTimeout Background 10) # deferred s,
                    driverCalls := driverCalls s @ [CallFind (WithTimeout Background 10)]\<rparr>) of
             (Some err, s6) \<Rightarrow>
               cacheMutex_Unlock (Println (''Error decoding map data: '' @ err) s6)
           | (None, s6) \<Rightarrow>
               cacheMutex_Unlock (Println ''Cache updated'' (s6\<lparr>cache_data := data s6\<rparr>)))"
  by (cases s)
    (simp add: updateCacheAsync_tick_def cacheMutex_Lock_def context_WithTimeout_def
      collection_Find_def Let_def split: prod.splits option.splits)

lemma tick_ok:
  assumes "\<not> cacheMutex s" and "decoded ds = Some rs"
  shows "\<exists>s'. updateCacheAsync_tick L (FindOk ds) s = Some s' \<and>
           cached s' = (if data s = NilSlice \<and> rs = [] then None else Some rs) \<and>
           len (cache_data s') = length rs \<and> \<not> cacheMutex s' \<and>
           timeouts s' = WithTimeout Background 10 # timeouts s \<and>
           deferred s' = CursorClose (WithTimeout Background 10) #
                         Cancel (WithTimeout Background 10) # deferred s \<and>
           driverCalls s' = driverCalls s @
             [CallFind (WithTimeout Background 10), CallAll Background] \<and>
           stdout s' = stdout s @ [''Cache updated'']"
proof -
  let ?s5 = "s\<lparr>cacheMutex := True,
    timeouts := WithTimeout Background 10 # timeouts s,
    deferred := CursorClose (WithTimeout Background 10) #
                Cancel (WithTimeout Background 10) # deferred s,
    driverCalls := driverCalls s @ [CallFind (WithTimeout Background 10)]\<rparr>"
  from cursor_All_ok [OF assms(2), of L Background ?s5] obtain s6 where
    a: "cursor_All L Background ds ?s5 = (None, s6)"
    "contents (heap s6) (data s6) = (if data s = NilSlice \<and> rs = [] then None else Some rs)"
    "len (data s6) = length rs"
    "driverCalls s6 = driverCalls s @ [CallFind (WithTimeout Background 10), CallAll Background]"
    "timeouts s6 = WithTimeout Background 10 # timeouts s"
    "deferred s6 = CursorClose (WithTimeout Background 10) #
                   Cancel (WithTimeout Background 10) # deferred s"
    "stdout s6 = stdout s"
    by auto
  show ?thesis
    using a by (simp add: tick_cursor [OF assms(1)] cached_def Println_def cacheMutex_Unlock_def)
qed

lemma tick_err:
  assumes "\<not> cacheMutex s" and "decoded ds = None"
  shows "\<exists>e s'. updateCacheAsync_tick L (FindOk ds) s = Some s' \<and>
           cache_data s' = cache_data s \<and> data s' = data s \<and> \<not> cacheMutex s' \<and>
           timeouts s' = WithTimeout Background 10 # timeouts s \<and>
           deferred s' = CursorClose (WithTimeout Background 10) #
                         Cancel (WithTimeout Background 10) # deferred s \<and>
           driverCalls s' = driverCalls s @
             [CallFind (WithTimeout Background 10), CallAll Background] \<and>
           stdout s' = stdout s @ [''Error decoding map data: '' @ e]"
proof -
  let ?s5 = "s\<lparr>cacheMutex := True,
    timeouts := WithTimeout Background 10 # timeouts s,
    deferred := CursorClose (WithTimeout Background 10) #
                Cancel (WithTimeout Background 10) # deferred s,
    driverCalls := driverCalls s @ [CallFind (WithTimeout Background 10)]\<rparr>"
  from cursor_All_err [OF assms(2), of L Background ?s5] obtain e s6 where
    a: "cursor_All L Background ds ?s5 = (Some e, s6)"
    "data s6 = data s" "cache_data s6 = cache_data s"
    "driverCalls s6 = driverCalls s @ [CallFind (WithTimeout Background 10), CallAll Background]"
    "timeouts s6 = WithTimeout Background 10 # timeouts s"
    "deferred s6 = CursorClose (WithTimeout Background 10) #
                   Cancel (WithTimeout Background 10) # deferred s"
    "stdout s6 = stdout s"
    by auto
  show ?thesis
    using a by (simp add: tick_cursor [OF assms(1)] Println_def cacheMutex_Unlock_def)
qed

lemma fetched_cases:
  "(\<exists>e. fr = FindErr e) \<or> (\<exists>ds. fr = FindOk ds \<and> decoded ds = None) \<or>
   (\<exists>ds rs. fr = FindOk ds \<and> decoded ds = Some rs)"
  by (cases fr) auto

lemma float64_value_1_5: "float64_value 0x3FF8000000000000 = Some (3 / 2)"
proof -
  have e: "float64_exponent 0x3FF8000000000000 = 1023"
    by (simp add: float64_exponent_def)
  have m: "float64_fraction 0x3FF8000000000000 = 2 ^ 51"
    by (simp add: float64_fraction_def)
  have s: "\<not> bit (0x3FF8000000000000 :: 64 word) 63"
    by (simp add: bit_iff_odd_drop_bit)
  show ?thesis
    unfolding float64_value_def Let_def e m using s by simp
qed

lemma float64_value_2_5: "float64_value 0x4004000000000000 = Some (5 / 2)"
proof -
  have e: "float64_exponent 0x4004000000000000 = 1024"
    by (simp add: float64_exponent_def)
  have m: "float64_fraction 0x4004000000000000 = 2 ^ 50"
    by (simp add: float64_fraction_def)
  have s: "\<not> bit (0x4004000000000000 :: 64 word) 63"
    by (simp add: bit_iff_odd_drop_bit)
  show ?thesis
    unfolding float64_value_def Let_def e m using s by simp
qed

lemma finite_1_5: "\<not> isNaN_or_Inf 0x3FF8000000000000"
  by (simp add: isNaN_or_Inf_def float64_exponent_def)

lemma finite_2_5: "\<not> isNaN_or_Inf 0x4004000000000000"
  by (simp add: isNaN_or_Inf_def float64_exponent_def)

lemma quiet_NaN: "isNaN_or_Inf 0x7FF8000000000000"
  by (simp add: isNaN_or_Inf_def float64_exponent_def)

lemma encode_failure_response:
  assumes "marshal L v = None"
  shows "encodeResponse L v jsonWriter =
           \<lparr>header = [(''Content-Type'', ''text/plain; charset=utf-8''),
                      (''X-Content-Type-Options'', ''nosniff'')],
            status = Some 500,
            body = ''Failed to encode map data as JSON'' @ [CHR 0x0A]\<rparr>"
  using assms
  by (simp add: encodeResponse_def Encoder_Encode_def http_Error_def Write_def WriteHeader_def
      Header_Set_def jsonWriter_def newResponseWriter_def)

lemma encode_success_response:
  assumes "marshal L v = Some b"
  shows "encodeResponse L v jsonWriter =
           \<lparr>header = [(''Content-Type'', ''application/json'')], status = Some 200,
            body = b @ [CHR 0x0A]\<rparr>"
  using assms
  by (simp add: encodeResponse_def Encoder_Encode_def Write_def WriteHeader_def
      Header_Set_def jsonWriter_def newResponseWriter_def)

lemma marshal_town:
  assumes "formatFloat L 0x3FF8000000000000 = ''1.5''"
    and "formatFloat L 0x4004000000000000 = ''2.5''"
  shows "marshalMapLocation L town =
           Some ''{\"id\":\"1\",\"location\":\"Town\",\"xy\":{\"x\":1.5,\"y\":2.5}}''"
  using assms
  by (simp add: marshalMapLocation_def marshalCoordinates_def marshalFloat_def marshalString_def
      htmlSafe_def town_def finite_1_5 finite_2_5)

lemma populated_state_facts:
  "\<not> cacheMutex populated_state" "len (cache_data populated_state) = 1"
  "cached populated_state = Some [town]" "snapshot populated_state = POPULATED"
  by (simp_all add: populated_state_def init_state_def cached_def snapshot_def)

lemma init_state_facts:
  "\<not> cacheMutex init_state" "len (cache_data init_state) = 0" "data init_state = NilSlice"
  "driverCalls init_state = []" "timeouts init_state = []" "cached init_state = None"
  "findCalls init_state = 0"
  by (simp_all add: init_state_def cached_def findCalls_def)

section \<open>The states of the snapshot\<close>

text \<open>
  C2, as the code has it. With the mutex free, a tick leaves the snapshot in the state it
  was in when the fetch fails, and after a successful fetch the snapshot is POPULATED
  exactly when the result set holds a record: a successful fetch of no record takes a
  POPULATED snapshot back to EMPTY. A request never does: it leaves a POPULATED snapshot
  POPULATED, and an EMPTY one becomes POPULATED exactly when its cold fill succeeds with
  a record. The counterexample is a tick that fetches the empty result set.
\<close>

theorem snapshot_transitions:
  assumes "\<not> cacheMutex s"
  shows "(\<exists>s'. updateCacheAsync_tick L fr s = Some s' \<and>
            snapshot s' =
              (case fetched fr of
                 None \<Rightarrow> snapshot s
               | Some d \<Rightarrow> if d = [] then EMPTY else POPULATED)) \<and>
         (\<exists>w s'. getMapDataHandler L fr s = Some (w, s') \<and>
            snapshot s' =
              (if snapshot s = POPULATED then POPULATED
               else case fetched fr of
                      None \<Rightarrow> EMPTY
                    | Some d \<Rightarrow> if d = [] then EMPTY else POPULATED))"
proof -
  have t: "\<exists>s'. updateCacheAsync_tick L fr s = Some s' \<and>
      snapshot s' =
        (case fetched fr of None \<Rightarrow> snapshot s | Some d \<Rightarrow> if d = [] then EMPTY else POPULATED)"
    using fetched_cases [of fr]
  proof (elim disjE exE conjE)
    fix e assume "fr = FindErr e"
    with assms show ?thesis by (simp add: tick_FindErr snapshot_def)
  next
    fix ds assume f: "fr = FindOk ds" and d: "decoded ds = None"
    from tick_err [OF assms d, of L] obtain s' where
      "updateCacheAsync_tick L (FindOk ds) s = Some s'" "cache_data s' = cache_data s"
      by blast
    with f d show ?thesis by (simp add: snapshot_def)
  next
    fix ds rs assume f: "fr = FindOk ds" and d: "decoded ds = Some rs"
    from tick_ok [OF assms d, of L] obtain s' where
      "updateCacheAsync_tick L (FindOk ds) s = Some s'" "len (cache_data s') = length rs"
      by blast
    with f d show ?thesis by (simp add: snapshot_def)
  qed
  have h: "\<exists>w s'. getMapDataHandler L fr s = Some (w, s') \<and>
      snapshot s' =
        (if snapshot s = POPULATED then POPULATED
         else case fetched fr of None \<Rightarrow> EMPTY | Some d \<Rightarrow> if d = [] then EMPTY else POPULATED)"
  proof (cases "len (cache_data s) = 0")
    case False
    with assms show ?thesis by (simp add: handler_populated snapshot_def)
  next
    case True
    from fetched_cases [of fr] show ?thesis
    proof (elim disjE exE conjE)
      fix e assume "fr = FindErr e"
      with assms True show ?thesis by (simp add: handler_FindErr snapshot_def)
    next
      fix ds assume f: "fr = FindOk ds" and d: "decoded ds = None"
      from handler_cold_err [OF assms True d, of L] obtain s' where
        "getMapDataHandler L (FindOk ds) s =
           Some (http_Error ''Failed to decode map data'' 500 jsonWriter, s')"
        "cache_data s' = cache_data s"
        by blast
      with f d True show ?thesis by (simp add: snapshot_def)
    next
      fix ds rs assume f: "fr = FindOk ds" and d: "decoded ds = Some rs"
      from handler_cold_ok [OF assms True d, of L] obtain s' where
        "getMapDataHandler L (FindOk ds) s = Some (encodeResponse L (cached s') jsonWriter, s')"
        "len (cache_data s') = length rs"
        by blast
      with f d True show ?thesis by (simp add: snapshot_def)
    qed
  qed
  from t h show ?thesis ..
qed

theorem snapshot_transitions_witness:
  "\<not> cacheMutex populated_state \<and>
   map_option snapshot
     (updateCacheAsync_tick sample_lib (FindOk [Doc town, Doc town]) populated_state) =
     Some POPULATED \<and>
   map_option (snapshot \<circ> snd)
     (getMapDataHandler sample_lib (FindOk []) populated_state) = Some POPULATED"
  using snapshot_transitions
      [OF populated_state_facts(1), of sample_lib "FindOk [Doc town, Doc town]"]
    snapshot_transitions [OF populated_state_facts(1), of sample_lib "FindOk []"]
    populated_state_facts
  by auto

theorem populated_to_empty_counterexample:
  "snapshot populated_state = POPULATED \<and>
   map_option snapshot (updateCacheAsync_tick sample_lib (FindOk []) populated_state) =
     Some EMPTY"
proof -
  have "decoded [] = Some []" by simp
  from tick_ok [OF populated_state_facts(1) this, of sample_lib] obtain s' where
    "updateCacheAsync_tick sample_lib (FindOk []) populated_state = Some s'"
    "len (cache_data s') = 0"
    by auto
  with populated_state_facts(4) show ?thesis by (simp add: snapshot_def)
qed

section \<open>The context of each driver call\<close>

text \<open>
  C3, evaluated. On both paths \<^verbatim>\<open>collection.Find\<close> is given a fresh context with a
  timeout of 10 seconds, and \<^verbatim>\<open>cursor.All\<close>, the decode phase of the fetch, is given
  \<^verbatim>\<open>context.Background()\<close>, which has no deadline.
\<close>

theorem decode_call_has_no_deadline:
  assumes "\<not> cacheMutex s"
  shows "(\<exists>s'. updateCacheAsync_tick L (FindOk cursor) s = Some s' \<and>
            driverCalls s' =
              driverCalls s @ [CallFind (WithTimeout Background 10), CallAll Background]) \<and>
         (len (cache_data s) = 0 \<longrightarrow>
            (\<exists>w s'. getMapDataHandler L (FindOk cursor) s = Some (w, s') \<and>
               driverCalls s' =
                 driverCalls s @
                   [CallFind (WithTimeout RequestContext 10), CallAll Background,
                    CallClose (WithTimeout RequestContext 10)])) \<and>
         \<not> hasDeadline Background \<and> hasDeadline (WithTimeout Background 10) \<and>
         hasDeadline (WithTimeout RequestContext 10)"
proof (cases "decoded cursor")
  case None
  from tick_err [OF assms None, of L] handler_cold_err [OF assms _ None, of L]
  show ?thesis by auto
next
  case (Some rs)
  from tick_ok [OF assms Some, of L] handler_cold_ok [OF assms _ Some, of L]
  show ?thesis by auto
qed

theorem decode_call_has_no_deadline_witness:
  "\<not> cacheMutex init_state \<and> len (cache_data init_state) = 0 \<and>
   map_option (driverCalls \<circ> snd)
     (getMapDataHandler sample_lib (FindOk [Doc town]) init_state) =
     Some [CallFind (WithTimeout RequestContext 10), CallAll Background,
           CallClose (WithTimeout RequestContext 10)] \<and>
   \<not> hasDeadline Background"
  using decode_call_has_no_deadline [OF init_state_facts(1), of sample_lib "[Doc town]"]
    init_state_facts
  by auto

section \<open>Responses\<close>

text \<open>
  C4. A request reaches the encoder with the snapshot \<open>v\<close>: the elements of the cache
  when it was populated, or the result set of the cold fill that has just succeeded.
  When \<open>v\<close> cannot be marshalled, the response has status 500, content type
  \<^verbatim>\<open>text/plain\<close> and the encoder's error message as its body, and the failure
  changes nothing in the cache: it still holds \<open>v\<close>, and a request that found the
  cache populated leaves the whole state as it was.
\<close>

theorem encode_failure_gives_500:
  assumes "\<not> cacheMutex s"
    and "len (cache_data s) \<noteq> 0 \<and> v = cached s \<or>
         len (cache_data s) = 0 \<and> fetched fr = Some rs \<and> v = Some rs"
    and "marshal L v = None"
  shows "\<exists>w s'. getMapDataHandler L fr s = Some (w, s') \<and>
           status w = Some 500 \<and>
           map_of (header w) ''Content-Type'' = Some ''text/plain; charset=utf-8'' \<and>
           body w = ''Failed to encode map data as JSON'' @ [CHR 0x0A] \<and>
           cached s' = v \<and>
           (len (cache_data s) \<noteq> 0 \<longrightarrow> s' = s)"
  using assms(2)
proof
  assume "len (cache_data s) \<noteq> 0 \<and> v = cached s"
  with assms(1,3) show ?thesis
    by (simp add: handler_populated encode_failure_response)
next
  assume a: "len (cache_data s) = 0 \<and> fetched fr = Some rs \<and> v = Some rs"
  then obtain ds where f: "fr = FindOk ds" and d: "decoded ds = Some rs"
    by (cases fr) simp_all
  from assms(3) a have "rs \<noteq> []"
    by (auto simp: marshal_def)
  with handler_cold_ok [OF assms(1) _ d, of L] a obtain s' where
    "getMapDataHandler L (FindOk ds) s = Some (encodeResponse L (cached s') jsonWriter, s')"
    "cached s' = Some rs"
    by auto
  with assms(3) a f show ?thesis
    by (simp add: encode_failure_response)
qed

theorem encode_failure_gives_500_witness:
  "\<not> cacheMutex nan_state \<and> len (cache_data nan_state) \<noteq> 0 \<and>
   marshal sample_lib (cached nan_state) = None \<and>
   map_option (status \<circ> fst) (getMapDataHandler sample_lib (FindErr ''unused'') nan_state) =
     Some (Some 500) \<and>
   map_option snd (getMapDataHandler sample_lib (FindErr ''unused'') nan_state) = Some nan_state"
proof -
  have c: "cached nan_state = Some [nan_town]"
    by (simp add: nan_state_def init_state_def cached_def)
  have m: "marshal sample_lib (cached nan_state) = None"
    by (simp add: c marshal_def marshalMapLocation_def marshalCoordinates_def marshalFloat_def
        nan_town_def quiet_NaN)
  have f: "\<not> cacheMutex nan_state" and l: "len (cache_data nan_state) \<noteq> 0"
    by (simp_all add: nan_state_def init_state_def)
  from encode_failure_gives_500
    [of nan_state "cached nan_state" "FindErr ''unused''" "[]" sample_lib, OF f _ m] l m f
  show ?thesis by auto
qed

text \<open>
  C7. The record with id "1", location "Town" and coordinates 1.5 and 2.5 (the binary64
  patterns that denote 3/2 and 5/2), fetched on a cold fill, is served as the object
  \<^verbatim>\<open>{"id":"1","location":"Town","xy":{"x":1.5,"y":2.5}}\<close>, the one element of the JSON
  array that is the body of the 200 response, whenever the library prints the two
  floats as \<^verbatim>\<open>1.5\<close> and \<^verbatim>\<open>2.5\<close>.
\<close>

theorem round_trip_town:
  assumes "formatFloat L 0x3FF8000000000000 = ''1.5''"
    and "formatFloat L 0x4004000000000000 = ''2.5''"
    and "\<not> cacheMutex s" and "len (cache_data s) = 0"
  shows "float64_value (X (XY town)) = Some (3 / 2) \<and>
         float64_value (Y (XY town)) = Some (5 / 2) \<and>
         marshalMapLocation L town =
           Some ''{\"id\":\"1\",\"location\":\"Town\",\"xy\":{\"x\":1.5,\"y\":2.5}}'' \<and>
         (\<exists>s'. getMapDataHandler L (FindOk [Doc town]) s =
                 Some (\<lparr>header = [(''Content-Type'', ''application/json'')],
                        status = Some 200,
                        body = ''[{\"id\":\"1\",\"location\":\"Town\",\"xy\":{\"x\":1.5,\"y\":2.5}}]'' @
                               [CHR 0x0A]\<rparr>, s') \<and>
               cached s' = Some [town])"
proof -
  have v: "float64_value (X (XY town)) = Some (3 / 2)" "float64_value (Y (XY town)) = Some (5 / 2)"
    by (simp_all add: town_def float64_value_1_5 float64_value_2_5)
  note t = marshal_town [OF assms(1,2)]
  have "marshal L (Some [town]) =
      Some ''[{\"id\":\"1\",\"location\":\"Town\",\"xy\":{\"x\":1.5,\"y\":2.5}}]''"
    by (simp add: marshal_def t)
  note r = encode_success_response [OF this]
  have "decoded [Doc town] = Some [town]" by simp
  from handler_cold_ok [OF assms(3,4) this, of L] obtain s' where
    "getMapDataHandler L (FindOk [Doc town]) s = Some (encodeResponse L (cached s') jsonWriter, s')"
    "cached s' = Some [town]"
    by auto
  with r v t show ?thesis by simp
qed

theorem round_trip_town_witness:
  "formatFloat sample_lib 0x3FF8000000000000 = ''1.5'' \<and>
   formatFloat sample_lib 0x4004000000000000 = ''2.5'' \<and>
   \<not> cacheMutex init_state \<and> len (cache_data init_state) = 0 \<and>
   map_option (body \<circ> fst) (getMapDataHandler sample_lib (FindOk [Doc town]) init_state) =
     Some (''[{\"id\":\"1\",\"location\":\"Town\",\"xy\":{\"x\":1.5,\"y\":2.5}}]'' @ [CHR 0x0A])"
proof -
  have a: "formatFloat sample_lib 0x3FF8000000000000 = ''1.5''"
    and b: "formatFloat sample_lib 0x4004000000000000 = ''2.5''"
    by (simp_all add: sample_lib_def)
  from round_trip_town [OF a b init_state_facts(1,2)] a b init_state_facts(1,2)
  show ?thesis by auto
qed



lemmas eval_defs = updateCacheAsync_tick_def getMapDataHandler_def driver_defs cursor_All_def
  makeRoom_def reflect_Append_def init_state_def sample_lib_def cached_def Let_def upt_rec

section \<open>Failed fetches\<close>

text \<open>
  C1, evaluated. A first tick fetches the records Town and Village, and the cache holds
  them. At the next tick the first document decodes to Harbour and the second fails to
  decode: \<^verbatim>\<open>cache.data\<close> is not assigned, but the decoding has written Harbour into
  the backing array it shares with \<^verbatim>\<open>data\<close>, and the cache holds Harbour and Village.
\<close>

theorem failed_decode_overwrites_snapshot:
  "map_option cached
     (updateCacheAsync sample_lib [FindOk [Doc town, Doc village]] init_state) =
     Some (Some [town, village]) \<and>
   map_option cached
     (updateCacheAsync sample_lib
        [FindOk [Doc town, Doc village], FindOk [Doc harbour, BadDoc ''bad document'']]
        init_state) =
     Some (Some [harbour, village])"
  by (simp add: eval_defs)

section \<open>Startup\<close>

text \<open>
  C5, as the code has it. Whichever step of \<^verbatim>\<open>initMongoDB\<close> fails (loading
  \<^verbatim>\<open>.env\<close>, an empty \<^verbatim>\<open>MONGO_URI\<close>, the connection, the ping), \<^verbatim>\<open>main\<close> prints
  that error and returns before it starts the refresher, registers the route or listens,
  and the process exits with status 0. The counterexample is a server that does not
  answer the ping.
\<close>

theorem startup_failure_stops_before_serving:
  "(godotenv_Load env = Some err \<longrightarrow> main env = stopped err) \<and>
   (godotenv_Load env = None \<and> MONGO_URI env = [] \<longrightarrow>
      main env = stopped ''MONGO_URI environment variable is not set'') \<and>
   (godotenv_Load env = None \<and> MONGO_URI env \<noteq> [] \<and> mongo_Connect env = Some err \<longrightarrow>
      main env = stopped err) \<and>
   (godotenv_Load env = None \<and> MONGO_URI env \<noteq> [] \<and> mongo_Connect env = None \<and>
    client_Ping env = Some err \<longrightarrow>
      main env = stopped err) \<and>
   serving (stopped err) = None \<and> refresher (stopped err) = None \<and>
   route (stopped err) = None \<and> exit_status (stopped err) = Some 0 \<and>
   printed (stopped err) = [''Error initializing MongoDB: '' @ err]"
  by (simp add: main_def initMongoDB_def stopped_def)

theorem startup_failure_stops_before_serving_witness:
  "godotenv_Load unreachable_env = None \<and> MONGO_URI unreachable_env \<noteq> [] \<and>
   mongo_Connect unreachable_env = None \<and>
   client_Ping unreachable_env = Some ''server selection timeout'' \<and>
   main unreachable_env = stopped ''server selection timeout'' \<and>
   serving (main unreachable_env) = None \<and>
   printed (main unreachable_env) =
     [''Error initializing MongoDB: server selection timeout'']"
proof -
  have e: "godotenv_Load unreachable_env = None" "MONGO_URI unreachable_env \<noteq> []"
    "mongo_Connect unreachable_env = None"
    "client_Ping unreachable_env = Some ''server selection timeout''"
    by (simp_all add: unreachable_env_def)
  from startup_failure_stops_before_serving [of unreachable_env "''server selection timeout''"] e
  have "main unreachable_env = stopped ''server selection timeout''"
    by blast
  with e show ?thesis by (simp add: stopped_def)
qed

theorem startup_failure_exits_zero_counterexample:
  "fst (initMongoDB unreachable_env) = Some ''server selection timeout'' \<and>
   serving (main unreachable_env) = None \<and>
   exit_status (main unreachable_env) = Some 0"
  by (simp add: main_def initMongoDB_def unreachable_env_def)

section \<open>What a tick releases\<close>

lemma tick_resources:
  assumes "\<not> cacheMutex s"
  shows "\<exists>s'. updateCacheAsync_tick L fr s = Some s' \<and> \<not> cacheMutex s' \<and>
           timeouts s' = WithTimeout Background 10 # timeouts s \<and>
           count_list (deferred s') (Cancel (WithTimeout Background 10)) =
             Suc (count_list (deferred s) (Cancel (WithTimeout Background 10)))"
  using fetched_cases [of fr]
proof (elim disjE exE conjE)
  fix e assume "fr = FindErr e"
  with assms show ?thesis by (simp add: tick_FindErr)
next
  fix ds assume f: "fr = FindOk ds" and d: "decoded ds = None"
  from tick_err [OF assms d, of L] obtain s' where
    "updateCacheAsync_tick L (FindOk ds) s = Some s'" "\<not> cacheMutex s'"
    "timeouts s' = WithTimeout Background 10 # timeouts s"
    "deferred s' = CursorClose (WithTimeout Background 10) #
                   Cancel (WithTimeout Background 10) # deferred s"
    by blast
  with f show ?thesis by simp
next
  fix ds rs assume f: "fr = FindOk ds" and d: "decoded ds = Some rs"
  from tick_ok [OF assms d, of L] obtain s' where
    "updateCacheAsync_tick L (FindOk ds) s = Some s'" "\<not> cacheMutex s'"
    "timeouts s' = WithTimeout Background 10 # timeouts s"
    "deferred s' = CursorClose (WithTimeout Background 10) #
                   Cancel (WithTimeout Background 10) # deferred s"
    by blast
  with f show ?thesis by simp
qed

lemma handler_resources:
  assumes "\<not> cacheMutex s"
  shows "\<exists>w s'. getMapDataHandler L fr s = Some (w, s') \<and> \<not> cacheMutex s' \<and>
           timeouts s' = timeouts s"
proof (cases "len (cache_data s) = 0")
  case False
  with assms show ?thesis by (simp add: handler_populated)
next
  case True
  from fetched_cases [of fr] show ?thesis
  proof (elim disjE exE conjE)
    fix e assume "fr = FindErr e"
    with assms True show ?thesis by (simp add: handler_FindErr)
  next
    fix ds assume f: "fr = FindOk ds" and d: "decoded ds = None"
    from handler_cold_err [OF assms True d, of L] obtain s' where
      "getMapDataHandler L (FindOk ds) s =
         Some (http_Error ''Failed to decode map data'' 500 jsonWriter, s')"
      "\<not> cacheMutex s'" "timeouts s' = timeouts s"
      by blast
    with f show ?thesis by simp
  next
    fix ds rs assume f: "fr = FindOk ds" and d: "decoded ds = Some rs"
    from handler_cold_ok [OF assms True d, of L] obtain s' where
      "getMapDataHandler L (FindOk ds) s = Some (encodeResponse L (cached s') jsonWriter, s')"
      "\<not> cacheMutex s'" "timeouts s' = timeouts s"
      by blast
    with f show ?thesis by simp
  qed
qed

lemma ticks_resources:
  "\<not> cacheMutex s \<Longrightarrow>
   \<exists>s'. updateCacheAsync L frs s = Some s' \<and> \<not> cacheMutex s' \<and>
     timeouts s' = replicate (length frs) (WithTimeout Background 10) @ timeouts s \<and>
     count_list (deferred s') (Cancel (WithTimeout Background 10)) =
       length frs + count_list (deferred s) (Cancel (WithTimeout Background 10))"
proof (induction frs arbitrary: s)
  case Nil
  then show ?case by simp
next
  case (Cons fr frs)
  from tick_resources [OF Cons.prems, of L fr] obtain s1 where
    t: "updateCacheAsync_tick L fr s = Some s1" "\<not> cacheMutex s1"
      "timeouts s1 = WithTimeout Background 10 # timeouts s"
      "count_list (deferred s1) (Cancel (WithTimeout Background 10)) =
         Suc (count_list (deferred s) (Cancel (WithTimeout Background 10)))"
    by blast
  from Cons.IH [OF t(2)] obtain s' where
    "updateCacheAsync L frs s1 = Some s'" "\<not> cacheMutex s'"
    "timeouts s' = replicate (length frs) (WithTimeout Background 10) @ timeouts s1"
    "count_list (deferred s') (Cancel (WithTimeout Background 10)) =
       length frs + count_list (deferred s1) (Cancel (WithTimeout Background 10))"
    by blast
  with t show ?case by (simp add: replicate_app_Cons_same)
qed

text \<open>
  C6, evaluated. After any number of ticks the mutex is free, and no cancel function
  has been called: every tick's timeout context is still uncancelled, and its
  \<^verbatim>\<open>cancel\<close> is one more deferred call pending in a frame that never returns. The
  request handler, whose deferred calls run at its return, leaves no context
  uncancelled.
\<close>

theorem ticks_leave_cancel_pending:
  assumes "\<not> cacheMutex s"
  shows "(\<exists>s'. updateCacheAsync L frs s = Some s' \<and> \<not> cacheMutex s' \<and>
            timeouts s' = replicate (length frs) (WithTimeout Background 10) @ timeouts s \<and>
            count_list (deferred s') (Cancel (WithTimeout Background 10)) =
              length frs + count_list (deferred s) (Cancel (WithTimeout Background 10))) \<and>
         (\<exists>w s'. getMapDataHandler L fr s = Some (w, s') \<and> \<not> cacheMutex s' \<and>
            timeouts s' = timeouts s)"
proof
  show "\<exists>s'. updateCacheAsync L frs s = Some s' \<and> \<not> cacheMutex s' \<and>
      timeouts s' = replicate (length frs) (WithTimeout Background 10) @ timeouts s \<and>
      count_list (deferred s') (Cancel (WithTimeout Background 10)) =
        length frs + count_list (deferred s) (Cancel (WithTimeout Background 10))"
    by (rule ticks_resources [OF assms])
  show "\<exists>w s'. getMapDataHandler L fr s = Some (w, s') \<and> \<not> cacheMutex s' \<and>
      timeouts s' = timeouts s"
    by (rule handler_resources [OF assms])
qed

theorem ticks_leave_cancel_pending_witness:
  "\<not> cacheMutex init_state \<and>
   map_option (\<lambda>s. (cacheMutex s, timeouts s))
     (updateCacheAsync sample_lib [FindErr ''down'', FindOk [Doc town]] init_state) =
     Some (False, [WithTimeout Background 10, WithTimeout Background 10])"
proof -
  from ticks_leave_cancel_pending
    [OF init_state_facts(1), of sample_lib "[FindErr ''down'', FindOk [Doc town]]" "FindErr []"]
  obtain s' where
    "updateCacheAsync sample_lib [FindErr ''down'', FindOk [Doc town]] init_state = Some s'"
    "\<not> cacheMutex s'"
    "timeouts s' = replicate (length [FindErr ''down'', FindOk [Doc town]])
       (WithTimeout Background 10) @ timeouts init_state"
    by blast
  with init_state_facts(1,5) show ?thesis by (simp add: numeral_2_eq_2)
qed

section \<open>Requests on an empty snapshot\<close>

lemma handler_findCalls:
  assumes "\<not> cacheMutex s"
  shows "\<exists>w s'. getMapDataHandler L fr s = Some (w, s') \<and>
           findCalls s' = findCalls s + (if len (cache_data s) = 0 then 1 else 0)"
proof (cases "len (cache_data s) = 0")
  case False
  with assms show ?thesis by (simp add: handler_populated)
next
  case True
  from fetched_cases [of fr] show ?thesis
  proof (elim disjE exE conjE)
    fix e assume "fr = FindErr e"
    with True assms show ?thesis by (simp add: handler_FindErr findCalls_def)
  next
    fix ds assume f: "fr = FindOk ds" and d: "decoded ds = None"
    from handler_cold_err [OF assms True d, of L] obtain s' where
      "getMapDataHandler L (FindOk ds) s =
         Some (http_Error ''Failed to decode map data'' 500 jsonWriter, s')"
      "driverCalls s' = driverCalls s @
         [CallFind (WithTimeout RequestContext 10), CallAll Background,
          CallClose (WithTimeout RequestContext 10)]"
      by blast
    with f True show ?thesis by (simp add: findCalls_def)
  next
    fix ds rs assume f: "fr = FindOk ds" and d: "decoded ds = Some rs"
    from handler_cold_ok [OF assms True d, of L] obtain s' where
      "getMapDataHandler L (FindOk ds) s = Some (encodeResponse L (cached s') jsonWriter, s')"
      "driverCalls s' = driverCalls s @
         [CallFind (WithTimeout RequestContext 10), CallAll Background,
          CallClose (WithTimeout RequestContext 10)]"
      by blast
    with f True show ?thesis by (simp add: findCalls_def)
  qed
qed

lemma emptyFetch_cases: "emptyFetch fr \<Longrightarrow> fr = FindOk []"
proof (cases fr)
  case (FindErr e)
  assume "emptyFetch fr"
  with FindErr show ?thesis by (simp add: emptyFetch_def)
next
  case (FindOk ds)
  assume "emptyFetch fr"
  with FindOk have "decoded ds = Some []" by (simp add: emptyFetch_def)
  then have "ds = []"
    by (cases ds) (auto split: document.splits option.splits)
  with FindOk show ?thesis by simp
qed

lemma serve_empty_collection:
  "\<not> cacheMutex s \<Longrightarrow> len (cache_data s) = 0 \<Longrightarrow> \<forall>fr\<in>set frs. emptyFetch fr \<Longrightarrow>
   \<exists>ws s'. run L (map Request frs) s = Some (ws, s') \<and> length ws = length frs \<and>
     findCalls s' = findCalls s + length frs \<and> len (cache_data s') = 0"
proof (induction frs arbitrary: s)
  case Nil
  then show ?case by simp
next
  case (Cons fr frs)
  from Cons.prems have fr: "fr = FindOk []"
    using emptyFetch_cases [of fr] by simp
  have "decoded [] = Some []" by simp
  from handler_cold_ok [OF Cons.prems(1,2) this, of L] obtain s1 where
    h: "getMapDataHandler L (FindOk []) s = Some (encodeResponse L (cached s1) jsonWriter, s1)"
    and s1: "\<not> cacheMutex s1" "len (cache_data s1) = 0"
    and c: "driverCalls s1 = driverCalls s @
      [CallFind (WithTimeout RequestContext 10), CallAll Background,
       CallClose (WithTimeout RequestContext 10)]"
    by auto
  from c have f1: "findCalls s1 = findCalls s + 1"
    by (simp add: findCalls_def)
  from Cons.IH [OF s1] Cons.prems(3) obtain ws s' where
    "run L (map Request frs) s1 = Some (ws, s')" "length ws = length frs"
    "findCalls s' = findCalls s1 + length frs" "len (cache_data s') = 0"
    by auto
  with h fr f1 show ?case by simp
qed

text \<open>
  C10. A request calls \<^verbatim>\<open>collection.Find\<close> once when \<^verbatim>\<open>len(cache.data)\<close> is 0 and
  not at all otherwise. So when every fetch succeeds with no record, the snapshot stays
  at length 0 and each request of a run makes its own call: as many calls as requests.
\<close>

theorem empty_snapshot_always_fetches:
  assumes "\<not> cacheMutex s"
  shows "(\<exists>w s'. getMapDataHandler L fr s = Some (w, s') \<and>
            findCalls s' = findCalls s + (if len (cache_data s) = 0 then 1 else 0)) \<and>
         (len (cache_data s) = 0 \<and> (\<forall>fr\<in>set frs. emptyFetch fr) \<longrightarrow>
            (\<exists>ws s'. run L (map Request frs) s = Some (ws, s') \<and> length ws = length frs \<and>
               findCalls s' = findCalls s + length frs \<and> len (cache_data s') = 0))"
proof (intro conjI impI)
  show "\<exists>w s'. getMapDataHandler L fr s = Some (w, s') \<and>
      findCalls s' = findCalls s + (if len (cache_data s) = 0 then 1 else 0)"
    by (rule handler_findCalls [OF assms])
next
  assume a: "len (cache_data s) = 0 \<and> (\<forall>fr\<in>set frs. emptyFetch fr)"
  then show "\<exists>ws s'. run L (map Request frs) s = Some (ws, s') \<and> length ws = length frs \<and>
      findCalls s' = findCalls s + length frs \<and> len (cache_data s') = 0"
    using serve_empty_collection [OF assms, of frs L] by simp
qed

theorem empty_snapshot_always_fetches_witness:
  "\<not> cacheMutex init_state \<and> len (cache_data init_state) = 0 \<and>
   emptyFetch (FindOk []) \<and>
   (\<exists>ws s'. run sample_lib (map Request [FindOk [], FindOk [], FindOk []]) init_state =
        Some (ws, s') \<and>
      findCalls s' = 3 \<and> len (cache_data s') = 0)"
proof -
  have e: "emptyFetch (FindOk [])"
    by (simp add: emptyFetch_def)
  then have "len (cache_data init_state) = 0 \<and>
      (\<forall>fr\<in>set [FindOk [], FindOk [], FindOk []]. emptyFetch fr)"
    by (simp add: init_state_facts)
  with empty_snapshot_always_fetches
    [OF init_state_facts(1), of sample_lib "FindErr []" "[FindOk [], FindOk [], FindOk []]"]
  obtain ws s' where
    "run sample_lib (map Request [FindOk [], FindOk [], FindOk []]) init_state = Some (ws, s')"
    "findCalls s' = findCalls init_state + length [FindOk [], FindOk [], FindOk [] :: find_result]"
    "len (cache_data s') = 0"
    by blast
  with e init_state_facts show ?thesis by simp
qed

section \<open>Requests between ticks\<close>

text \<open>
  C9, evaluated. Two ticks and two requests, one after the other as the mutex orders
  them. The first tick fetches Town and Village, and the first request is served both.
  At the second tick the first document decodes to Harbour and the second fails to
  decode. The second request is served Harbour and Village: a record of the failed fetch
  beside a record of the earlier one.
\<close>

theorem response_mixes_two_fetches:
  "map_option (map body \<circ> fst)
     (run sample_lib
        [Tick (FindOk [Doc town, Doc village]), Request (FindErr ''unused''),
         Tick (FindOk [Doc harbour, BadDoc ''bad document'']), Request (FindErr ''unused'')]
        init_state) =
   Some
     [''[{\"id\":\"1\",\"location\":\"Town\",\"xy\":{\"x\":1.5,\"y\":2.5}},{\"id\":\"2\",\"location\":\"Village\",\"xy\":{\"x\":2.5,\"y\":1.5}}]'' @
        [CHR 0x0A],
      ''[{\"id\":\"3\",\"location\":\"Harbour\",\"xy\":{\"x\":1.5,\"y\":1.5}},{\"id\":\"2\",\"location\":\"Village\",\"xy\":{\"x\":2.5,\"y\":1.5}}]'' @
        [CHR 0x0A]]"
  by (simp add: eval_defs jsonWriter_def encodeResponse_def Encoder_Encode_def marshal_def
      marshalMapLocation_def marshalCoordinates_def marshalFloat_def marshalString_def htmlSafe_def
      town_def village_def harbour_def finite_1_5 finite_2_5 Write_def WriteHeader_def
      Header_Set_def newResponseWriter_def)

end
